theory Spec2Isabelle
  imports Complex_Main
begin

section \<open>Python numbers\<close>

text \<open>
  The program computes with Python \<^verbatim>\<open>float\<close>s (IEEE 754 binary64, round to nearest, ties
  to even) and with unbounded Python \<^verbatim>\<open>int\<close>s. A float is modelled by the rational it
  denotes, or one of the three special values; the sign of zero is not represented
  (no operation of this program observes it). Every arithmetic operation computes the
  exact rational result and rounds it with \<open>rnd\<close>. Python ints are HOL \<open>int\<close>s; where
  Python converts an int operand to float, the model calls \<open>float_of_int\<close>.
\<close>

datatype pyfloat = Fin rat | PInf | NInf | NaN

datatype error = ZeroDivisionError | OverflowError | KeyError | DatabaseError

definition bind_err :: "error + 'a \<Rightarrow> ('a \<Rightarrow> error + 'b) \<Rightarrow> error + 'b" where
  "bind_err r f = (case r of Inl e \<Rightarrow> Inl e | Inr v \<Rightarrow> f v)"

text \<open>\<open>bit_length n\<close> is Python's \<^verbatim>\<open>n.bit_length()\<close> for \<open>n \<ge> 0\<close>.\<close>

function bit_length :: "int \<Rightarrow> int" where
  "bit_length n = (if n \<le> 0 then 0 else 1 + bit_length (n div 2))"
  by pat_completeness auto
termination
  by (relation "measure nat") auto

declare bit_length.simps [simp del]

definition pow2 :: "int \<Rightarrow> rat" where
  "pow2 k = (if 0 \<le> k then 2 ^ nat k else 1 / 2 ^ nat (- k))"

text \<open>For \<open>x > 0\<close>, \<open>floor_log2 x\<close> is the exponent \<open>e\<close> with \<open>2^e \<le> x < 2^(e+1)\<close>.\<close>

definition floor_log2 :: "rat \<Rightarrow> int" where
  "floor_log2 x =
     (if 1 \<le> x then bit_length \<lfloor>x\<rfloor> - 1
      else (let j = bit_length \<lfloor>1 / x\<rfloor> - 1
            in if x * pow2 j = 1 then - j else - j - 1))"

definition round_half_even :: "rat \<Rightarrow> int" where
  "round_half_even q =
     (let f = \<lfloor>q\<rfloor>; r = q - of_int f
      in if r < 1 / 2 then f else if 1 / 2 < r then f + 1
         else if even f then f else f + 1)"

text \<open>
  Rounding of a positive rational to 53 significant bits; below \<open>2^-1022\<close> the spacing
  stays \<open>2^-1074\<close> (subnormal numbers).
\<close>

definition round_mag :: "rat \<Rightarrow> rat" where
  "round_mag x =
     (let e = max (floor_log2 x) (- 1022); u = pow2 (e - 52)
      in of_int (round_half_even (x / u)) * u)"

definition max_double :: rat where
  "max_double = (2 ^ 53 - 1) * 2 ^ 971"

definition rnd :: "rat \<Rightarrow> pyfloat" where
  "rnd x =
     (if x = 0 then Fin 0
      else (let y = round_mag \<bar>x\<bar>
            in if max_double < y then (if 0 < x then PInf else NInf)
               else Fin (sgn x * y)))"

definition inf_of_sign :: "bool \<Rightarrow> pyfloat" where
  "inf_of_sign positive = (if positive then PInf else NInf)"

fun fadd :: "pyfloat \<Rightarrow> pyfloat \<Rightarrow> pyfloat" where
  "fadd (Fin x) (Fin y) = rnd (x + y)"
| "fadd NaN _ = NaN"
| "fadd _ NaN = NaN"
| "fadd PInf NInf = NaN"
| "fadd NInf PInf = NaN"
| "fadd PInf _ = PInf"
| "fadd NInf _ = NInf"
| "fadd (Fin x) PInf = PInf"
| "fadd (Fin x) NInf = NInf"

fun fmul :: "pyfloat \<Rightarrow> pyfloat \<Rightarrow> pyfloat" where
  "fmul (Fin x) (Fin y) = rnd (x * y)"
| "fmul NaN _ = NaN"
| "fmul _ NaN = NaN"
| "fmul PInf PInf = PInf"
| "fmul PInf NInf = NInf"
| "fmul NInf PInf = NInf"
| "fmul NInf NInf = PInf"
| "fmul PInf (Fin y) = (if y = 0 then NaN else inf_of_sign (0 < y))"
| "fmul NInf (Fin y) = (if y = 0 then NaN else inf_of_sign (y < 0))"
| "fmul (Fin x) PInf = (if x = 0 then NaN else inf_of_sign (0 < x))"
| "fmul (Fin x) NInf = (if x = 0 then NaN else inf_of_sign (x < 0))"

text \<open>Python raises \<^verbatim>\<open>ZeroDivisionError\<close> for a zero divisor, whatever the dividend.\<close>

fun fdiv :: "pyfloat \<Rightarrow> pyfloat \<Rightarrow> error + pyfloat" where
  "fdiv a (Fin y) =
     (if y = 0 then Inl ZeroDivisionError
      else (case a of
              Fin x \<Rightarrow> Inr (rnd (x / y))
            | PInf \<Rightarrow> Inr (inf_of_sign (0 < y))
            | NInf \<Rightarrow> Inr (inf_of_sign (y < 0))
            | NaN \<Rightarrow> Inr NaN))"
| "fdiv (Fin x) PInf = Inr (Fin 0)"
| "fdiv (Fin x) NInf = Inr (Fin 0)"
| "fdiv _ _ = Inr NaN"

text \<open>\<^verbatim>\<open>a > b\<close>; a comparison with NaN is false.\<close>

fun fgt :: "pyfloat \<Rightarrow> pyfloat \<Rightarrow> bool" where
  "fgt (Fin x) (Fin y) = (y < x)"
| "fgt NaN _ = False"
| "fgt _ NaN = False"
| "fgt PInf PInf = False"
| "fgt PInf _ = True"
| "fgt NInf _ = False"
| "fgt (Fin x) PInf = False"
| "fgt (Fin x) NInf = True"

text \<open>
  Conversion of an int operand in mixed arithmetic: the nearest float, and
  \<^verbatim>\<open>OverflowError\<close> when the int is too large for a float.
\<close>

definition float_of_int :: "int \<Rightarrow> error + pyfloat" where
  "float_of_int n =
     (case rnd (of_int n) of Fin x \<Rightarrow> Inr (Fin x) | _ \<Rightarrow> Inl OverflowError)"

section \<open>utilis.py\<close>

text \<open>A float literal denotes the float nearest to the decimal written.\<close>

definition EMISSION_FACTORS :: "string \<rightharpoonup> pyfloat" where
  "EMISSION_FACTORS = map_of
     [(''car_petrol'', rnd (21 / 100)),
      (''car_diesel'', rnd (18 / 100)),
      (''car_electric'', rnd (5 / 100)),
      (''public_transport'', rnd (8 / 100)),
      (''motorcycle'', rnd (11 / 100)),
      (''flight_short'', rnd (24 / 100)),
      (''flight_long'', rnd (18 / 100)),
      (''electricity'', rnd (233 / 1000)),
      (''natural_gas'', rnd (184 / 1000)),
      (''meat_beef'', rnd 6),
      (''meat_pork'', rnd (17 / 10)),
      (''meat_chicken'', rnd (9 / 10)),
      (''vegetarian'', rnd (5 / 10)),
      (''vegan'', rnd (4 / 10))]"

definition NATIONAL_AVERAGES :: "string \<rightharpoonup> int" where
  "NATIONAL_AVERAGES = map_of
     [(''UK'', 5200),
      (''USA'', 16000),
      (''EU'', 6800),
      (''World'', 4800),
      (''China'', 7000),
      (''India'', 1900),
      (''Australia'', 15000),
      (''Canada'', 14000)]"

text \<open>\<^verbatim>\<open>d[k]\<close>: a missing key raises \<^verbatim>\<open>KeyError\<close>.\<close>

definition getitem :: "('k \<rightharpoonup> 'v) \<Rightarrow> 'k \<Rightarrow> error + 'v" where
  "getitem d k = (case d k of None \<Rightarrow> Inl KeyError | Some v \<Rightarrow> Inr v)"

text \<open>
  \<^verbatim>\<open>distance * EMISSION_FACTORS.get(transport_type, 0)\<close> with a float distance: the default
  is the int \<open>0\<close>, converted to the float \<open>0.0\<close> by the multiplication.
\<close>

definition calculate_transportation_emissions :: "string \<Rightarrow> pyfloat \<Rightarrow> pyfloat" where
  "calculate_transportation_emissions transport_type distance =
     fmul distance (case EMISSION_FACTORS transport_type of Some f \<Rightarrow> f | None \<Rightarrow> Fin 0)"

definition calculate_household_emissions :: "pyfloat \<Rightarrow> pyfloat \<Rightarrow> error + pyfloat" where
  "calculate_household_emissions electricity_kwh gas_kwh =
     bind_err (getitem EMISSION_FACTORS ''electricity'') (\<lambda>fe.
     bind_err (getitem EMISSION_FACTORS ''natural_gas'') (\<lambda>fg.
       Inr (fadd (fmul electricity_kwh fe) (fmul gas_kwh fg))))"

text \<open>
  \<^verbatim>\<open>meals_per_week * EMISSION_FACTORS.get(diet_type, 0)\<close> with an int meal count: with a
  float factor the count is converted to float first; with the default int \<open>0\<close> the
  product is the int \<open>0\<close>, which the model writes as the float zero.
\<close>

definition calculate_food_emissions :: "string \<Rightarrow> int \<Rightarrow> error + pyfloat" where
  "calculate_food_emissions diet_type meals_per_week =
     (case EMISSION_FACTORS diet_type of
        Some f \<Rightarrow> bind_err (float_of_int meals_per_week) (\<lambda>m. Inr (fmul m f))
      | None \<Rightarrow> Inr (Fin 0))"

record comparison_result =
  country :: string
  national_avg :: int
  percentage :: pyfloat
  message :: string
  status :: string

definition get_footprint_comparison :: "pyfloat \<Rightarrow> string \<Rightarrow> error + comparison_result" where
  "get_footprint_comparison annual_footprint ctry =
     bind_err (getitem NATIONAL_AVERAGES ''World'') (\<lambda>world.
     (let avg = (case NATIONAL_AVERAGES ctry of Some v \<Rightarrow> v | None \<Rightarrow> world) in
     bind_err (float_of_int avg) (\<lambda>favg.
     bind_err (fdiv annual_footprint favg) (\<lambda>q.
     (let pct = fmul q (Fin 100);
          ms = (if fgt pct (Fin 120) then
                  (''Your carbon footprint is significantly higher than the '' @ ctry @ '' average.'',
                   ''high'')
                else if fgt pct (Fin 100) then
                  (''Your carbon footprint is above the '' @ ctry @ '' average.'',
                   ''above_avg'')
                else if fgt pct (Fin 80) then
                  (''Your carbon footprint is close to the '' @ ctry @ '' average.'',
                   ''average'')
                else if fgt pct (Fin 50) then
                  (''Your carbon footprint is below the '' @ ctry @ '' average. Good job!'',
                   ''below_avg'')
                else
                  (''Your carbon footprint is significantly lower than the '' @ ctry @ '' average. Excellent!'',
                   ''low''))
      in Inr \<lparr>country = ctry, national_avg = avg, percentage = pct,
               message = fst ms, status = snd ms\<rparr>)))))"

text \<open>\<^verbatim>\<open>emissions_data.get(k, 0)\<close>.\<close>

definition get_or_zero :: "(string \<rightharpoonup> pyfloat) \<Rightarrow> string \<Rightarrow> pyfloat" where
  "get_or_zero emissions_data k = (case emissions_data k of Some v \<Rightarrow> v | None \<Rightarrow> Fin 0)"

definition rec_driving :: string where
  "rec_driving = ''Consider carpooling, using public transport, or cycling for short journeys to reduce your driving emissions.''"

definition rec_flights :: string where
  "rec_flights = ''Reduce the number of flights you take. Consider trains for shorter journeys or virtual meetings instead of business travel.''"

definition rec_electricity :: string where
  "rec_electricity = ''Reduce your electricity consumption by using energy-efficient appliances, LED bulbs, and being mindful of standby power.''"

text \<open>The degree sign of the source is written as its two UTF-8 bytes.\<close>

definition rec_gas :: string where
  "rec_gas = ''Improve your home insulation and consider lowering your heating thermostat by 1-2''
     @ [CHR 0xC2, CHR 0xB0] @ ''C to save energy.''"

definition rec_beef :: string where
  "rec_beef = ''Consider reducing beef consumption. Beef has one of the highest carbon footprints among food items.''"

definition rec_meat_free :: string where
  "rec_meat_free = ''Try introducing 1-2 meat-free days per week to reduce your food-related carbon footprint.''"

definition general_recommendations :: "string list" where
  "general_recommendations =
     [''Consider using renewable energy sources for your home.'',
      ''Look into carbon offsetting programs for emissions you can't reduce.'',
      ''Reduce, reuse, and recycle to minimize waste-related emissions.'',
      ''Support local businesses to reduce transportation emissions from goods.'']"

text \<open>
  The list \<^verbatim>\<open>recommendations\<close> is threaded through the six \<^verbatim>\<open>if\<close> statements, each of
  which may append to it; the last statement replaces an empty list.
\<close>

definition get_recommendations :: "(string \<rightharpoonup> pyfloat) \<Rightarrow> string list" where
  "get_recommendations emissions_data =
     (let g = get_or_zero emissions_data;
          r0 = [];
          r1 = (if fgt (g ''car_petrol'') (Fin 30) \<or> fgt (g ''car_diesel'') (Fin 30)
                then r0 @ [rec_driving] else r0);
          r2 = (if fgt (g ''flight_short'') (Fin 50) \<or> fgt (g ''flight_long'') (Fin 100)
                then r1 @ [rec_flights] else r1);
          r3 = (if fgt (g ''electricity'') (Fin 40) then r2 @ [rec_electricity] else r2);
          r4 = (if fgt (g ''natural_gas'') (Fin 30) then r3 @ [rec_gas] else r3);
          r5 = (if fgt (g ''meat_beef'') (Fin 15) then r4 @ [rec_beef] else r4);
          r6 = (if fgt (fadd (fadd (g ''meat_beef'') (g ''meat_pork'')) (g ''meat_chicken''))
                       (Fin 20)
                then r5 @ [rec_meat_free] else r5)
      in if r6 = [] then general_recommendations else r6)"

record export_row =
  category :: string
  timeframe :: string
  emissions :: pyfloat

record results =
  weekly_total :: pyfloat
  annual_total :: pyfloat
  weekly_breakdown :: "(string \<times> pyfloat) list"
  comparison :: comparison_result
  recommendations :: "string list"

text \<open>
  The dict \<^verbatim>\<open>weekly_breakdown\<close> is an association list in insertion order, the order in
  which \<^verbatim>\<open>items()\<close> yields it. The rows are the list handed to \<^verbatim>\<open>pd.DataFrame\<close>; the
  int national average becomes the nearest float in the emissions column.
\<close>

definition format_emissions_for_download :: "results \<Rightarrow> export_row list" where
  "format_emissions_for_download data =
     map (\<lambda>(c, v). \<lparr>category = c, timeframe = ''Weekly'', emissions = v\<rparr>)
         (weekly_breakdown data)
     @ [\<lparr>category = ''Total'', timeframe = ''Weekly'', emissions = weekly_total data\<rparr>,
        \<lparr>category = ''Total'', timeframe = ''Annual'', emissions = annual_total data\<rparr>,
        \<lparr>category = ''National Average'', timeframe = ''Annual'',
         emissions = rnd (of_int (national_avg (comparison data)))\<rparr>]"

section \<open>app.py: the submit handler of the calculator form\<close>

record calculation_input =
  transport_type :: string
  weekly_distance :: pyfloat
  short_flights :: int
  long_flights :: int
  electricity_kwh :: pyfloat
  gas_kwh :: pyfloat
  meals :: "string \<Rightarrow> int"
  selected_country :: string

definition short_flight_distance :: int where
  "short_flight_distance = 1000"

definition long_flight_distance :: int where
  "long_flight_distance = 6000"

text \<open>
  \<^verbatim>\<open>(short_flights * short_flight_distance * EMISSION_FACTORS["flight_short"]) / 52\<close>: the
  product of the two ints is exact, it is converted to float for the multiplication
  by the factor, and the int \<open>52\<close> is the float \<open>52.0\<close> in the division.
\<close>

definition flight_short_emissions :: "int \<Rightarrow> error + pyfloat" where
  "flight_short_emissions n =
     bind_err (getitem EMISSION_FACTORS ''flight_short'') (\<lambda>f.
     bind_err (float_of_int (n * short_flight_distance)) (\<lambda>a.
       fdiv (fmul a f) (Fin 52)))"

definition flight_long_emissions :: "int \<Rightarrow> error + pyfloat" where
  "flight_long_emissions n =
     bind_err (getitem EMISSION_FACTORS ''flight_long'') (\<lambda>f.
     bind_err (float_of_int (n * long_flight_distance)) (\<lambda>a.
       fdiv (fmul a f) (Fin 52)))"

definition diet_options :: "string list" where
  "diet_options = [''meat_beef'', ''meat_pork'', ''meat_chicken'', ''vegetarian'', ''vegan'']"

definition diet_inputs :: "calculation_input \<Rightarrow> (string \<times> int) list" where
  "diet_inputs inp = map (\<lambda>k. (k, meals inp k)) diet_options"

fun diet_emissions :: "(string \<times> int) list \<Rightarrow> error + (string \<times> pyfloat) list" where
  "diet_emissions [] = Inr []"
| "diet_emissions ((diet_type, n) # rest) =
     bind_err (calculate_food_emissions diet_type n) (\<lambda>v.
     bind_err (diet_emissions rest) (\<lambda>vs. Inr ((diet_type, v) # vs)))"

text \<open>
  \<^verbatim>\<open>sum(values)\<close> starts from the int \<open>0\<close> and adds from the left. (From CPython 3.12
  on, \<^verbatim>\<open>sum\<close> compensates the rounding errors of the float additions; the two agree
  whenever every partial sum is exact, as in the scenario evaluated below.)
\<close>

definition py_sum :: "pyfloat list \<Rightarrow> pyfloat" where
  "py_sum vs = foldl fadd (Fin 0) vs"

definition carbon_calculator_form :: "calculation_input \<Rightarrow> error + results" where
  "carbon_calculator_form inp =
     (let transport_emissions =
            calculate_transportation_emissions (transport_type inp) (weekly_distance inp) in
      bind_err (flight_short_emissions (short_flights inp)) (\<lambda>fs.
      bind_err (flight_long_emissions (long_flights inp)) (\<lambda>fl.
      bind_err (calculate_household_emissions (electricity_kwh inp) (gas_kwh inp)) (\<lambda>household.
      bind_err (diet_emissions (diet_inputs inp)) (\<lambda>de.
      (let total_diet_emissions = py_sum (map snd de);
           weekly = fadd (fadd (fadd (fadd transport_emissions fs) fl) household)
                     total_diet_emissions;
           annual = fmul weekly (Fin 52);
           breakdown = [(''Transportation'', transport_emissions),
                 (''Short Flights'', fs),
                 (''Long Flights'', fl),
                 (''Household Energy'', household),
                 (''Diet'', total_diet_emissions)] in
       bind_err (getitem EMISSION_FACTORS ''electricity'') (\<lambda>fe.
       bind_err (getitem EMISSION_FACTORS ''natural_gas'') (\<lambda>fg.
       (let detailed_emissions =
              (Map.empty(transport_type inp \<mapsto> transport_emissions,
                         ''flight_short'' \<mapsto> fs,
                         ''flight_long'' \<mapsto> fl,
                         ''electricity'' \<mapsto> fmul (electricity_kwh inp) fe,
                         ''natural_gas'' \<mapsto> fmul (gas_kwh inp) fg)) ++ map_of de in
        bind_err (get_footprint_comparison annual (selected_country inp)) (\<lambda>cmp.
          Inr \<lparr>weekly_total = weekly, annual_total = annual, weekly_breakdown = breakdown,
                comparison = cmp,
                recommendations = get_recommendations detailed_emissions\<rparr>))))))))))"

section \<open>database.py\<close>

record CarbonFootprint =
  fp_id :: int
  fp_user_name :: string
  fp_email :: string
  fp_weekly_total :: pyfloat
  fp_annual_total :: pyfloat
  fp_transport_emissions :: pyfloat
  fp_short_flights_emissions :: pyfloat
  fp_long_flights_emissions :: pyfloat
  fp_household_emissions :: pyfloat
  fp_diet_emissions :: pyfloat
  fp_country :: string
  fp_timestamp :: string

text \<open>
  The table \<^verbatim>\<open>carbon_footprints\<close> is the list of its rows; \<open>reachable\<close> says whether the
  database answers. When it does not, the operation raises inside \<^verbatim>\<open>try\<close>, the handler
  rolls the transaction back and raises again, so the rows stay as they were.
\<close>

record database =
  carbon_footprints :: "CarbonFootprint list"
  reachable :: bool

text \<open>The primary key identifies a row.\<close>

definition primary_key_ok :: "database \<Rightarrow> bool" where
  "primary_key_ok db = distinct (map fp_id (carbon_footprints db))"

text \<open>
  \<^verbatim>\<open>query(CarbonFootprint).filter_by(id=footprint_id).first()\<close> is the first matching
  row or \<^verbatim>\<open>None\<close>; \<^verbatim>\<open>session.delete\<close> with \<^verbatim>\<open>commit\<close> deletes the row with the primary key
  of the object found.
\<close>

definition delete_footprint :: "int \<Rightarrow> database \<Rightarrow> (error + bool) \<times> database" where
  "delete_footprint footprint_id db =
     (if \<not> reachable db then (Inl DatabaseError, db)
      else (case find (\<lambda>r. fp_id r = footprint_id) (carbon_footprints db) of
              Some footprint \<Rightarrow>
                (Inr True,
                 db\<lparr>carbon_footprints :=
                      filter (\<lambda>r. fp_id r \<noteq> fp_id footprint) (carbon_footprints db)\<rparr>)
            | None \<Rightarrow> (Inr False, db)))"

section \<open>The recommendation rules as the specification lists them\<close>

text \<open>
  The specification gives the engine as a list of (predicate, message) pairs evaluated
  in a fixed order; \<open>spec_rules\<close> is that list and \<open>fired\<close> the messages of the pairs
  whose predicate holds. Both are compared with \<open>get_recommendations\<close> below.
\<close>

definition spec_rules :: "(string \<rightharpoonup> pyfloat) \<Rightarrow> (bool \<times> string) list" where
  "spec_rules ed =
     [(fgt (get_or_zero ed ''car_petrol'') (Fin 30) \<or> fgt (get_or_zero ed ''car_diesel'') (Fin 30),
       rec_driving),
      (fgt (get_or_zero ed ''flight_short'') (Fin 50) \<or> fgt (get_or_zero ed ''flight_long'') (Fin 100),
       rec_flights),
      (fgt (get_or_zero ed ''electricity'') (Fin 40), rec_electricity),
      (fgt (get_or_zero ed ''natural_gas'') (Fin 30), rec_gas),
      (fgt (get_or_zero ed ''meat_beef'') (Fin 15), rec_beef),
      (fgt (fadd (fadd (get_or_zero ed ''meat_beef'') (get_or_zero ed ''meat_pork''))
                 (get_or_zero ed ''meat_chicken'')) (Fin 20), rec_meat_free)]"

definition fired :: "(bool \<times> string) list \<Rightarrow> string list" where
  "fired rules = map snd (filter fst rules)"

section \<open>The comparison bands as the specification lists them\<close>

text \<open>
  \<open>spec_band\<close> is the band assignment of the specification: strict comparisons, from
  the top, first match wins. \<open>message_templates\<close> lists, for each band, the text before
  and after the country name in the message of that band.
\<close>

definition spec_band :: "pyfloat \<Rightarrow> string" where
  "spec_band pct =
     (if fgt pct (Fin 120) then ''high''
      else if fgt pct (Fin 100) then ''above_avg''
      else if fgt pct (Fin 80) then ''average''
      else if fgt pct (Fin 50) then ''below_avg''
      else ''low'')"

definition message_templates :: "(string \<times> string \<times> string) list" where
  "message_templates =
     [(''high'', ''Your carbon footprint is significantly higher than the '', '' average.''),
      (''above_avg'', ''Your carbon footprint is above the '', '' average.''),
      (''average'', ''Your carbon footprint is close to the '', '' average.''),
      (''below_avg'', ''Your carbon footprint is below the '', '' average. Good job!''),
      (''low'', ''Your carbon footprint is significantly lower than the '',
       '' average. Excellent!'')]"

section \<open>Evaluation of the float operations\<close>

lemma bit_length_0: "bit_length 0 = 0"
  by (simp add: bit_length.simps)

lemma bit_length_1: "bit_length 1 = 1"
  by (simp add: bit_length.simps)

lemma bit_length_neg: "bit_length (- numeral n) = 0"
  by (simp add: bit_length.simps)

lemma bit_length_One: "bit_length (numeral Num.One) = 1"
  by (simp add: bit_length.simps)

lemma bit_length_Bit0: "bit_length (numeral (Num.Bit0 n)) = 1 + bit_length (numeral n)"
  by (subst bit_length.simps) simp

lemma bit_length_Bit1: "bit_length (numeral (Num.Bit1 n)) = 1 + bit_length (numeral n)"
  by (subst bit_length.simps) simp

lemma floor_rat_numeral: "\<lfloor>numeral a / numeral b :: rat\<rfloor> = numeral a div numeral b"
  by (metis floor_divide_of_int_eq of_int_numeral)

lemmas float_eval =
  rnd_def round_mag_def floor_log2_def round_half_even_def pow2_def max_double_def
  bit_length_0 bit_length_1 bit_length_neg bit_length_One bit_length_Bit0 bit_length_Bit1
  floor_rat_numeral Let_def

lemma rnd_0: "rnd 0 = Fin 0"
  by (simp add: rnd_def)

subsection \<open>Ints below \<open>2^53\<close> convert exactly\<close>

lemma bit_length_pos: "0 < n \<Longrightarrow> 1 \<le> bit_length n"
proof -
  assume "0 < n"
  have "0 \<le> bit_length m" for m
    by (induction m rule: bit_length.induct) (simp add: bit_length.simps)
  from this [of "n div 2"] \<open>0 < n\<close> show ?thesis
    by (subst bit_length.simps) simp
qed

lemma bit_length_le: "n < 2 ^ k \<Longrightarrow> bit_length n \<le> int k"
proof (induction k arbitrary: n)
  case 0
  then show ?case by (simp add: bit_length.simps)
next
  case (Suc k)
  show ?case
  proof (cases "n \<le> 0")
    case True
    then show ?thesis by (simp add: bit_length.simps)
  next
    case False
    from Suc.prems have "n div 2 < 2 ^ k" by simp
    from Suc.IH [OF this] False show ?thesis
      by (subst bit_length.simps) simp
  qed
qed

lemma round_half_even_of_int: "round_half_even (of_int k) = k"
  by (simp add: round_half_even_def)

lemma round_mag_of_int:
  assumes "0 < n" "n < 2 ^ 53"
  shows "round_mag (of_int n) = of_int n"
proof -
  define e where "e = bit_length n - 1"
  from assms have e: "0 \<le> e" "e \<le> 52"
    using bit_length_pos [of n] bit_length_le [of n 53] by (simp_all add: e_def)
  from assms have fl: "floor_log2 (of_int n) = e"
    by (simp add: floor_log2_def e_def)
  from e have mx: "max e (- 1022) = e" by simp
  from e have u: "pow2 (e - 52) = 1 / 2 ^ nat (52 - e)"
    by (cases "e = 52") (simp_all add: pow2_def)
  have q: "rat_of_int n / (1 / 2 ^ nat (52 - e)) = of_int (n * 2 ^ nat (52 - e))"
    by simp
  show ?thesis
    unfolding round_mag_def fl mx Let_def u q round_half_even_of_int
    by simp
qed

lemma float_of_int_exact:
  assumes "0 \<le> n" "n < 2 ^ 53"
  shows "float_of_int n = Inr (Fin (of_int n))"
proof (cases "n = 0")
  case True
  then show ?thesis by (simp add: float_of_int_def rnd_def)
next
  case False
  with assms have pos: "0 < n" by simp
  have "rat_of_int n < 2 ^ 53"
    using assms(2) by (metis of_int_less_iff of_int_numeral of_int_power)
  also have "\<dots> \<le> max_double" by (simp add: max_double_def)
  finally have "\<not> max_double < of_int n" by simp
  with pos show ?thesis
    by (simp add: float_of_int_def rnd_def round_mag_of_int [OF pos assms(2)] Let_def)
qed

subsection \<open>The ints that convert to float\<close>

lemma bit_length_bounds:
  "0 < n \<Longrightarrow> 2 ^ (nat (bit_length n) - 1) \<le> n \<and> n < 2 ^ nat (bit_length n)"
proof (induction n rule: bit_length.induct)
  case (1 n)
  show ?case
  proof (cases "n div 2 = 0")
    case True
    with "1.prems" have "n = 1" by presburger
    then show ?thesis by (simp add: bit_length_1)
  next
    case False
    with "1.prems" have pos: "0 < n div 2" by presburger
    define b where "b = nat (bit_length (n div 2))"
    from bit_length_pos [OF pos] have b1: "1 \<le> b" by (simp add: b_def)
    from "1.IH" "1.prems" pos have ih: "2 ^ (b - 1) \<le> n div 2" "n div 2 < 2 ^ b"
      by (simp_all add: b_def)
    from bit_length_pos [OF pos] "1.prems" have bl: "nat (bit_length n) = Suc b"
      by (subst bit_length.simps) (simp add: b_def)
    from b1 have "(2::int) ^ b = 2 * 2 ^ (b - 1)"
      by (cases b) simp_all
    with ih have "2 ^ b \<le> n" "n < 2 ^ Suc b" by simp_all
    then show ?thesis by (simp add: bl)
  qed
qed

lemma round_half_even_ge: "of_int a \<le> q \<Longrightarrow> a \<le> round_half_even q"
proof -
  assume "of_int a \<le> q"
  then have "a \<le> \<lfloor>q\<rfloor>" by (simp add: le_floor_iff)
  then show ?thesis by (auto simp: round_half_even_def Let_def)
qed

lemma round_half_even_le: "q \<le> of_int b \<Longrightarrow> round_half_even q \<le> b"
proof -
  assume q: "q \<le> of_int b"
  then have f: "\<lfloor>q\<rfloor> \<le> b" by (simp add: floor_le_iff)
  show ?thesis
  proof (cases "\<lfloor>q\<rfloor> = b")
    case True
    with q have "q = of_int b" using of_int_floor_le [of q] by simp
    then show ?thesis by (simp add: round_half_even_def)
  next
    case False
    with f have "\<lfloor>q\<rfloor> + 1 \<le> b" by simp
    then show ?thesis by (auto simp: round_half_even_def Let_def)
  qed
qed

lemma round_half_even_below_half:
  "q < of_int b - 1 / 2 \<Longrightarrow> round_half_even q \<le> b - 1"
proof -
  assume q: "q < of_int b - 1 / 2"
  then have "q < of_int b" by simp
  then have f: "\<lfloor>q\<rfloor> \<le> b - 1" by (simp add: floor_less_iff)
  show ?thesis
  proof (cases "\<lfloor>q\<rfloor> = b - 1")
    case True
    with q have "q - of_int \<lfloor>q\<rfloor> < 1 / 2" by simp
    with True show ?thesis by (simp add: round_half_even_def Let_def)
  next
    case False
    with f have "\<lfloor>q\<rfloor> + 1 \<le> b - 1" by simp
    then show ?thesis by (auto simp: round_half_even_def Let_def)
  qed
qed

lemma round_half_even_above_half:
  "even b \<Longrightarrow> of_int b - 1 / 2 \<le> q \<Longrightarrow> b \<le> round_half_even q"
proof -
  assume b: "even b" and q: "of_int b - 1 / 2 \<le> q"
  then have "of_int (b - 1) \<le> q" by simp
  then have f: "b - 1 \<le> \<lfloor>q\<rfloor>" by (simp add: le_floor_iff)
  show ?thesis
  proof (cases "\<lfloor>q\<rfloor> = b - 1")
    case True
    with q have "1 / 2 \<le> q - of_int \<lfloor>q\<rfloor>" by simp
    moreover from True b have "odd \<lfloor>q\<rfloor>" by simp
    ultimately show ?thesis using True by (auto simp: round_half_even_def Let_def)
  next
    case False
    with f have "b \<le> \<lfloor>q\<rfloor>" by simp
    then show ?thesis by (auto simp: round_half_even_def Let_def)
  qed
qed

lemma round_mag_large:
  assumes m: "2 ^ 53 \<le> m"
  shows "\<exists>k R. 1 \<le> k \<and> 2 ^ 52 * 2 ^ k \<le> m \<and> m < 2 ^ 53 * 2 ^ k
           \<and> R = round_half_even (of_int m / 2 ^ k)
           \<and> round_mag (of_int m) = of_int R * 2 ^ k"
proof -
  from m have pos: "0 < m" by (simp add: order_less_le_trans [of 0 "2 ^ 53"])
  define b where "b = nat (bit_length m)"
  from bit_length_pos [OF pos] have bl: "bit_length m = int b" by (simp add: b_def)
  from bit_length_bounds [OF pos] have bnd: "2 ^ (b - 1) \<le> m" "m < 2 ^ b"
    by (simp_all add: b_def)
  have "53 < b"
  proof (rule ccontr)
    assume "\<not> 53 < b"
    then have "b \<le> 53" by simp
    then have "(2::int) ^ b \<le> 2 ^ 53" by (intro power_increasing) simp_all
    with bnd(2) m show False by linarith
  qed
  define k where "k = b - 53"
  from \<open>53 < b\<close> have k: "1 \<le> k" "b = k + 53" "b - 1 = k + 52" by (simp_all add: k_def)
  from bnd have bnd': "2 ^ 52 * 2 ^ k \<le> m" "m < 2 ^ 53 * 2 ^ k"
    unfolding k(2,3) by (simp_all add: power_add mult.commute)
  from pos have one: "1 \<le> rat_of_int m" by simp
  have fl: "floor_log2 (of_int m) = int k + 52"
    using one by (simp add: floor_log2_def bl k(2))
  have u: "pow2 (int k + 52 - 52) = 2 ^ k" by (simp add: pow2_def)
  have mx: "max (int k + 52) (- 1022) = int k + 52" by simp
  have "round_mag (of_int m) = of_int (round_half_even (of_int m / 2 ^ k)) * 2 ^ k"
    unfolding round_mag_def fl mx Let_def u ..
  with k(1) bnd' show ?thesis by blast
qed

lemma round_mag_overflow_iff:
  assumes pos: "0 < m"
  shows "max_double < round_mag (of_int m) \<longleftrightarrow> 2 ^ 1024 - 2 ^ 970 \<le> m"
proof (cases "m < 2 ^ 53")
  case True
  from round_mag_of_int [OF pos True] True show ?thesis
    by (simp add: max_double_def)
next
  case False
  then have "2 ^ 53 \<le> m" by simp
  from round_mag_large [OF this] obtain k R where
    k: "1 \<le> k" and lo: "2 ^ 52 * 2 ^ k \<le> m" and hi: "m < 2 ^ 53 * 2 ^ k"
    and R: "R = round_half_even (of_int m / 2 ^ k)"
    and rm: "round_mag (of_int m) = of_int R * 2 ^ k"
    by blast
  let ?q = "rat_of_int m / 2 ^ k"
  have p: "(0::rat) < 2 ^ k" by simp
  from lo have "rat_of_int (2 ^ 52 * 2 ^ k) \<le> of_int m" by (simp only: of_int_le_iff)
  then have qlo: "of_int (2 ^ 52) \<le> ?q" by (simp add: pos_le_divide_eq)
  from hi have "rat_of_int m < of_int (2 ^ 53 * 2 ^ k)" by (simp only: of_int_less_iff)
  then have qhi: "?q \<le> of_int (2 ^ 53)" by (simp add: pos_divide_le_eq)
  from round_half_even_ge [OF qlo] R have Rlo: "2 ^ 52 \<le> R" by simp
  from round_half_even_le [OF qhi] R have Rhi: "R \<le> 2 ^ 53" by simp
  consider "k \<le> 970" | "k = 971" | "972 \<le> k" by linarith
  then show ?thesis
  proof cases
    case 1
    then have pk: "(2::int) ^ k \<le> 2 ^ 970" by (intro power_increasing) simp_all
    with hi have "m < 2 ^ 53 * 2 ^ 970"
      by (meson mult_left_mono order_less_le_trans zero_le_numeral zero_le_power)
    then have rhs: "\<not> 2 ^ 1024 - 2 ^ 970 \<le> m" by simp
    from Rhi have "R * 2 ^ k \<le> 2 ^ 53 * 2 ^ 970"
      using pk by (intro mult_mono) simp_all
    then have "rat_of_int (R * 2 ^ k) \<le> of_int (2 ^ 53 * 2 ^ 970)"
      by (simp only: of_int_le_iff)
    then have "rat_of_int R * 2 ^ k \<le> max_double"
      by (simp add: max_double_def)
    with rhs show ?thesis by (simp add: rm)
  next
    case 2
    show ?thesis
    proof (cases "2 ^ 1024 - 2 ^ 970 \<le> m")
      case True
      then have "rat_of_int (2 ^ 1024 - 2 ^ 970) \<le> of_int m" by (simp only: of_int_le_iff)
      then have "of_int (2 ^ 53) - 1 / 2 \<le> ?q"
        unfolding 2 by (simp add: pos_le_divide_eq)
      from round_half_even_above_half [OF _ this] R have "2 ^ 53 \<le> R" by simp
      then have "rat_of_int (2 ^ 53) \<le> of_int R" by (simp only: of_int_le_iff)
      then have "max_double < of_int R * 2 ^ k"
        unfolding 2 by (simp add: max_double_def)
      with True show ?thesis by (simp add: rm)
    next
      case False
      then have "m < 2 ^ 1024 - 2 ^ 970" by simp
      then have "rat_of_int m < of_int (2 ^ 1024 - 2 ^ 970)" by (simp only: of_int_less_iff)
      then have "?q < of_int (2 ^ 53) - 1 / 2"
        unfolding 2 by (simp add: pos_divide_less_eq)
      from round_half_even_below_half [OF this] R have "R \<le> 2 ^ 53 - 1" by simp
      then have "rat_of_int R \<le> of_int (2 ^ 53 - 1)" by (simp only: of_int_le_iff)
      then have "of_int R * 2 ^ k \<le> max_double"
        unfolding 2 by (simp add: max_double_def)
      with False show ?thesis by (simp add: rm)
    qed
  next
    case 3
    then have pk: "(2::int) ^ 972 \<le> 2 ^ k" by (intro power_increasing) simp_all
    have "(2::int) ^ 52 * 2 ^ 972 \<le> 2 ^ 52 * 2 ^ k"
      using pk by (intro mult_left_mono) simp_all
    with lo have "2 ^ 52 * 2 ^ 972 \<le> m" by linarith
    then have rhs: "2 ^ 1024 - 2 ^ 970 \<le> m" by simp
    from Rlo pk have "2 ^ 52 * 2 ^ 972 \<le> R * 2 ^ k"
      by (intro mult_mono) simp_all
    then have "rat_of_int (2 ^ 52 * 2 ^ 972) \<le> of_int (R * 2 ^ k)"
      by (simp only: of_int_le_iff)
    then have "max_double < of_int R * 2 ^ k"
      by (simp add: max_double_def)
    with rhs show ?thesis by (simp add: rm)
  qed
qed

lemma float_of_int_returns_iff:
  "(\<exists>x. float_of_int n = Inr x) \<longleftrightarrow> \<bar>n\<bar> < 2 ^ 1024 - 2 ^ 970"
proof (cases "n = 0")
  case True
  then show ?thesis by (simp add: float_of_int_def rnd_0)
next
  case False
  then have pos: "0 < \<bar>n\<bar>" by simp
  have a: "\<bar>rat_of_int n\<bar> = of_int \<bar>n\<bar>" by simp
  from False round_mag_overflow_iff [OF pos] show ?thesis
    unfolding float_of_int_def rnd_def a Let_def
    by (auto simp: not_le)
qed

section \<open>Recommendation Engine\<close>

lemma get_recommendations_fired:
  "get_recommendations ed =
     (if fired (spec_rules ed) = [] then general_recommendations else fired (spec_rules ed))"
  by (simp add: get_recommendations_def spec_rules_def fired_def Let_def)

lemma messages_distinct:
  "distinct ([rec_driving, rec_flights, rec_electricity, rec_gas, rec_beef, rec_meat_free]
             @ general_recommendations)"
  by (simp add: rec_driving_def rec_flights_def rec_electricity_def rec_gas_def rec_beef_def
      rec_meat_free_def general_recommendations_def)

lemma map_snd_spec_rules:
  "map snd (spec_rules ed) =
     [rec_driving, rec_flights, rec_electricity, rec_gas, rec_beef, rec_meat_free]"
  by (simp add: spec_rules_def)

lemma fired_subset: "set (fired rs) \<subseteq> snd ` set rs"
  by (auto simp: fired_def)

lemma fired_iff:
  "distinct (map snd rs) \<Longrightarrow> (c, m) \<in> set rs \<Longrightarrow> (m \<in> set (fired rs)) = c"
proof (induction rs)
  case Nil
  then show ?case by simp
next
  case (Cons r rs)
  show ?case
  proof (cases "r = (c, m)")
    case True
    with Cons.prems(1) have "m \<notin> snd ` set rs" by auto
    with fired_subset [of rs] have "m \<notin> set (fired rs)" by blast
    with True show ?thesis by (simp add: fired_def)
  next
    case False
    with Cons.prems have in_rs: "(c, m) \<in> set rs" and d: "distinct (map snd rs)" by auto
    from Cons.prems(1) in_rs have "snd r \<noteq> m" by (force simp: image_iff)
    with Cons.IH [OF d in_rs] show ?thesis by (auto simp: fired_def)
  qed
qed

lemma fired_not_general:
  "m \<in> set (fired (spec_rules ed)) \<Longrightarrow> m \<notin> set general_recommendations"
proof -
  assume "m \<in> set (fired (spec_rules ed))"
  with fired_subset [of "spec_rules ed"] have "m \<in> set (map snd (spec_rules ed))" by auto
  then have "m \<in> set [rec_driving, rec_flights, rec_electricity, rec_gas, rec_beef, rec_meat_free]"
    by (simp only: map_snd_spec_rules)
  with messages_distinct show ?thesis by auto
qed

text \<open>
  Claim C7. The six rules are evaluated independently, in the listed order, and each
  appends its message exactly when its threshold holds: the result is the list of the
  messages of the rules that fire (the generic list when none does), and the message of
  a rule is in the result exactly when the rule's predicate is true.
\<close>

theorem recommendation_rules:
  "get_recommendations ed =
     (if fired (spec_rules ed) = [] then general_recommendations else fired (spec_rules ed))
   \<and> (\<forall>(c, m) \<in> set (spec_rules ed). (m \<in> set (get_recommendations ed)) = c)"
proof (intro conjI ballI)
  show eq: "get_recommendations ed =
     (if fired (spec_rules ed) = [] then general_recommendations else fired (spec_rules ed))"
    by (rule get_recommendations_fired)
  fix r assume r: "r \<in> set (spec_rules ed)"
  obtain c m where cm: "r = (c, m)" by (cases r)
  have d: "distinct (map snd (spec_rules ed))"
    using messages_distinct by (simp only: map_snd_spec_rules distinct_append)
  from fired_iff [OF d] r cm have iff: "(m \<in> set (fired (spec_rules ed))) = c" by simp
  have "(m \<in> set (get_recommendations ed)) = c"
  proof (cases "fired (spec_rules ed) = []")
    case True
    with iff have "\<not> c" by auto
    from r cm have "m \<in> set (map snd (spec_rules ed))" by force
    then have "m \<in> set [rec_driving, rec_flights, rec_electricity, rec_gas, rec_beef, rec_meat_free]"
      by (simp only: map_snd_spec_rules)
    with messages_distinct have "m \<notin> set general_recommendations" by auto
    with True \<open>\<not> c\<close> show ?thesis by (simp add: eq)
  next
    case False
    with iff show ?thesis by (simp add: eq)
  qed
  with cm show "case r of (c, m) \<Rightarrow> (m \<in> set (get_recommendations ed)) = c" by simp
qed

theorem recommendation_rules_witness:
  "get_recommendations (Map.empty(''car_diesel'' \<mapsto> Fin 31, ''electricity'' \<mapsto> rnd (401 / 10),
      ''meat_beef'' \<mapsto> Fin 12)) = [rec_driving, rec_electricity]
   \<and> rec_driving \<in> set (get_recommendations (Map.empty(''car_diesel'' \<mapsto> Fin 31,
      ''electricity'' \<mapsto> rnd (401 / 10), ''meat_beef'' \<mapsto> Fin 12)))
   \<and> rec_beef \<notin> set (get_recommendations (Map.empty(''car_diesel'' \<mapsto> Fin 31,
      ''electricity'' \<mapsto> rnd (401 / 10), ''meat_beef'' \<mapsto> Fin 12)))"
  using recommendation_rules [of "Map.empty(''car_diesel'' \<mapsto> Fin 31,
      ''electricity'' \<mapsto> rnd (401 / 10), ''meat_beef'' \<mapsto> Fin 12)"]
  by (simp add: spec_rules_def fired_def get_or_zero_def float_eval
      rec_driving_def rec_electricity_def rec_beef_def)

text \<open>
  Claim C3. The list of recommendations is never empty; when no rule fires, and in
  particular when every value of the mapping is zero, it is the generic list of four
  recommendations, in its fixed order.
\<close>

theorem recommendations_never_empty:
  "get_recommendations ed \<noteq> []
   \<and> length general_recommendations = 4
   \<and> ((\<forall>(c, m) \<in> set (spec_rules ed). \<not> c) \<longrightarrow> get_recommendations ed = general_recommendations)
   \<and> ((\<forall>k v. ed k = Some v \<longrightarrow> v = Fin 0) \<longrightarrow> get_recommendations ed = general_recommendations)"
proof (intro conjI impI)
  show "get_recommendations ed \<noteq> []"
    by (simp add: get_recommendations_fired general_recommendations_def)
  show "length general_recommendations = 4"
    by (simp add: general_recommendations_def)
  show "get_recommendations ed = general_recommendations"
    if "\<forall>(c, m) \<in> set (spec_rules ed). \<not> c"
  proof -
    from that have "filter fst (spec_rules ed) = []"
      by (auto simp: filter_empty_conv)
    then show ?thesis by (simp add: get_recommendations_fired fired_def)
  qed
  show "get_recommendations ed = general_recommendations"
    if z: "\<forall>k v. ed k = Some v \<longrightarrow> v = Fin 0"
  proof -
    have g: "get_or_zero ed k = Fin 0" for k
      using z by (cases "ed k") (auto simp: get_or_zero_def)
    show ?thesis
      by (simp add: get_recommendations_def g rnd_0 Let_def)
  qed
qed

theorem recommendations_never_empty_witness:
  "get_recommendations (Map.empty(''car_petrol'' \<mapsto> Fin 0, ''meat_beef'' \<mapsto> Fin 0))
     = [''Consider using renewable energy sources for your home.'',
        ''Look into carbon offsetting programs for emissions you can't reduce.'',
        ''Reduce, reuse, and recycle to minimize waste-related emissions.'',
        ''Support local businesses to reduce transportation emissions from goods.'']"
  using recommendations_never_empty [of "Map.empty(''car_petrol'' \<mapsto> Fin 0, ''meat_beef'' \<mapsto> Fin 0)"]
  by (simp add: general_recommendations_def)

section \<open>Export Formatter\<close>

text \<open>
  Claim C6. The rows are, in this order: one row with timeframe "Weekly" for each
  breakdown category (in the order of the breakdown), the weekly total, the annual
  total, and the national average with timeframe "Annual"; their number is the number
  of breakdown categories plus three, whatever the values.
\<close>

theorem export_rows:
  "format_emissions_for_download data =
     map (\<lambda>(c, v). \<lparr>category = c, timeframe = ''Weekly'', emissions = v\<rparr>)
         (weekly_breakdown data)
     @ [\<lparr>category = ''Total'', timeframe = ''Weekly'', emissions = weekly_total data\<rparr>,
        \<lparr>category = ''Total'', timeframe = ''Annual'', emissions = annual_total data\<rparr>,
        \<lparr>category = ''National Average'', timeframe = ''Annual'',
         emissions = rnd (of_int (national_avg (comparison data)))\<rparr>]
   \<and> length (format_emissions_for_download data) = length (weekly_breakdown data) + 3
   \<and> map category (take (length (weekly_breakdown data)) (format_emissions_for_download data))
       = map fst (weekly_breakdown data)
   \<and> (\<forall>i < length (weekly_breakdown data).
         timeframe (format_emissions_for_download data ! i) = ''Weekly'')
   \<and> timeframe (last (format_emissions_for_download data)) = ''Annual''"
proof -
  let ?wk = "map (\<lambda>(c, v). \<lparr>category = c, timeframe = ''Weekly'', emissions = v\<rparr>)
         (weekly_breakdown data)"
  have len: "length ?wk = length (weekly_breakdown data)" by simp
  have eq: "format_emissions_for_download data = ?wk
     @ [\<lparr>category = ''Total'', timeframe = ''Weekly'', emissions = weekly_total data\<rparr>,
        \<lparr>category = ''Total'', timeframe = ''Annual'', emissions = annual_total data\<rparr>,
        \<lparr>category = ''National Average'', timeframe = ''Annual'',
         emissions = rnd (of_int (national_avg (comparison data)))\<rparr>]"
    by (simp add: format_emissions_for_download_def)
  have cat: "map category ?wk = map fst (weekly_breakdown data)"
    by (simp add: case_prod_beta comp_def)
  have tf: "timeframe (?wk ! i) = ''Weekly''" if "i < length (weekly_breakdown data)" for i
    using that by (simp add: case_prod_beta)
  show ?thesis
    unfolding eq using cat tf
    by (simp add: nth_append del: map_map)
qed


theorem export_rows_witness:
  "map (\<lambda>r. (category r, timeframe r, emissions r))
     (format_emissions_for_download
        \<lparr>weekly_total = Fin 3, annual_total = Fin 156,
         weekly_breakdown = [(''Transportation'', Fin 1), (''Diet'', Fin 2)],
         comparison = \<lparr>country = ''UK'', national_avg = 5200, percentage = Fin 3,
                       message = ''m'', status = ''low''\<rparr>,
         recommendations = []\<rparr>)
   = [(''Transportation'', ''Weekly'', Fin 1), (''Diet'', ''Weekly'', Fin 2),
      (''Total'', ''Weekly'', Fin 3), (''Total'', ''Annual'', Fin 156),
      (''National Average'', ''Annual'', Fin 5200)]"
  using export_rows [of "\<lparr>weekly_total = Fin 3, annual_total = Fin 156,
         weekly_breakdown = [(''Transportation'', Fin 1), (''Diet'', Fin 2)],
         comparison = \<lparr>country = ''UK'', national_avg = 5200, percentage = Fin 3,
                       message = ''m'', status = ''low''\<rparr>,
         recommendations = []\<rparr>"]
  by (simp add: float_eval)

section \<open>Persistence Gateway\<close>

lemma find_id_None:
  "find (\<lambda>r. fp_id r = i) rows = None \<longleftrightarrow> i \<notin> fp_id ` set rows"
  by (auto simp: find_None_iff)

lemma find_id_Some:
  "find (\<lambda>r. fp_id r = i) rows = Some r \<Longrightarrow> fp_id r = i \<and> r \<in> set rows"
  by (auto simp: find_Some_iff)

lemma filter_absent:
  "i \<notin> fp_id ` set rows \<Longrightarrow> filter (\<lambda>r. fp_id r \<noteq> i) rows = rows"
  by (induction rows) auto

lemma length_filter_key:
  "distinct (map fp_id rows) \<Longrightarrow> i \<in> fp_id ` set rows \<Longrightarrow>
     Suc (length (filter (\<lambda>r. fp_id r \<noteq> i) rows)) = length rows"
proof (induction rows)
  case Nil
  then show ?case by simp
next
  case (Cons r rows)
  show ?case
  proof (cases "fp_id r = i")
    case True
    with Cons.prems(1) have "i \<notin> fp_id ` set rows" by auto
    with True show ?thesis by (simp add: filter_absent)
  next
    case False
    with Cons show ?thesis by auto
  qed
qed

text \<open>
  Claim C9. When the database answers, \<open>delete_footprint\<close> returns a boolean: \<open>True\<close>
  exactly when a row with the identifier exists, and then that row is removed (one row
  fewer, under the primary-key constraint) and every other row is kept; \<open>False\<close>
  otherwise, and then the database is unchanged.
\<close>

theorem delete_footprint_result:
  assumes "reachable db"
  shows "fst (delete_footprint i db) = Inr (i \<in> fp_id ` set (carbon_footprints db))
    \<and> snd (delete_footprint i db)
        = db\<lparr>carbon_footprints := filter (\<lambda>r. fp_id r \<noteq> i) (carbon_footprints db)\<rparr>
    \<and> i \<notin> fp_id ` set (carbon_footprints (snd (delete_footprint i db)))
    \<and> (i \<notin> fp_id ` set (carbon_footprints db) \<longrightarrow> snd (delete_footprint i db) = db)
    \<and> (i \<in> fp_id ` set (carbon_footprints db) \<and> primary_key_ok db \<longrightarrow>
         Suc (length (carbon_footprints (snd (delete_footprint i db))))
           = length (carbon_footprints db)
         \<and> primary_key_ok (snd (delete_footprint i db)))"
proof (cases "find (\<lambda>r. fp_id r = i) (carbon_footprints db)")
  case None
  then have absent: "i \<notin> fp_id ` set (carbon_footprints db)"
    by (simp add: find_id_None)
  from None assms have d: "delete_footprint i db = (Inr False, db)"
    by (simp add: delete_footprint_def)
  from absent show ?thesis
    unfolding d by (simp add: filter_absent)
next
  case (Some r)
  from find_id_Some [OF Some] have r: "fp_id r = i" "r \<in> set (carbon_footprints db)"
    by simp_all
  then have present: "i \<in> fp_id ` set (carbon_footprints db)" by auto
  from Some assms r(1) have d: "delete_footprint i db =
      (Inr True, db\<lparr>carbon_footprints := filter (\<lambda>r. fp_id r \<noteq> i) (carbon_footprints db)\<rparr>)"
    by (simp add: delete_footprint_def)
  from present show ?thesis
    unfolding d
    by (auto simp: primary_key_ok_def length_filter_key distinct_map_filter)
qed


theorem delete_footprint_result_witness:
  "delete_footprint 1
      \<lparr>carbon_footprints = [\<lparr>fp_id = 1, fp_user_name = ''Ada'', fp_email = ''ada@example.org'',
            fp_weekly_total = Fin 3, fp_annual_total = Fin 156,
            fp_transport_emissions = Fin 1, fp_short_flights_emissions = Fin 0,
            fp_long_flights_emissions = Fin 0, fp_household_emissions = Fin 0,
            fp_diet_emissions = Fin 2, fp_country = ''UK'',
            fp_timestamp = ''2024-01-01 10:00:00''\<rparr>,
           \<lparr>fp_id = 2, fp_user_name = ''Bob'', fp_email = ''bob@example.org'',
            fp_weekly_total = Fin 3, fp_annual_total = Fin 156,
            fp_transport_emissions = Fin 1, fp_short_flights_emissions = Fin 0,
            fp_long_flights_emissions = Fin 0, fp_household_emissions = Fin 0,
            fp_diet_emissions = Fin 2, fp_country = ''UK'',
            fp_timestamp = ''2024-01-01 10:00:00''\<rparr>],
       reachable = True\<rparr>
    = (Inr True,
      \<lparr>carbon_footprints = [\<lparr>fp_id = 2, fp_user_name = ''Bob'', fp_email = ''bob@example.org'',
            fp_weekly_total = Fin 3, fp_annual_total = Fin 156,
            fp_transport_emissions = Fin 1, fp_short_flights_emissions = Fin 0,
            fp_long_flights_emissions = Fin 0, fp_household_emissions = Fin 0,
            fp_diet_emissions = Fin 2, fp_country = ''UK'',
            fp_timestamp = ''2024-01-01 10:00:00''\<rparr>],
       reachable = True\<rparr>)
   \<and> delete_footprint 7
      \<lparr>carbon_footprints = [\<lparr>fp_id = 1, fp_user_name = ''Ada'', fp_email = ''ada@example.org'',
            fp_weekly_total = Fin 3, fp_annual_total = Fin 156,
            fp_transport_emissions = Fin 1, fp_short_flights_emissions = Fin 0,
            fp_long_flights_emissions = Fin 0, fp_household_emissions = Fin 0,
            fp_diet_emissions = Fin 2, fp_country = ''UK'',
            fp_timestamp = ''2024-01-01 10:00:00''\<rparr>,
           \<lparr>fp_id = 2, fp_user_name = ''Bob'', fp_email = ''bob@example.org'',
            fp_weekly_total = Fin 3, fp_annual_total = Fin 156,
            fp_transport_emissions = Fin 1, fp_short_flights_emissions = Fin 0,
            fp_long_flights_emissions = Fin 0, fp_household_emissions = Fin 0,
            fp_diet_emissions = Fin 2, fp_country = ''UK'',
            fp_timestamp = ''2024-01-01 10:00:00''\<rparr>],
       reachable = True\<rparr>
    = (Inr False,
      \<lparr>carbon_footprints = [\<lparr>fp_id = 1, fp_user_name = ''Ada'', fp_email = ''ada@example.org'',
            fp_weekly_total = Fin 3, fp_annual_total = Fin 156,
            fp_transport_emissions = Fin 1, fp_short_flights_emissions = Fin 0,
            fp_long_flights_emissions = Fin 0, fp_household_emissions = Fin 0,
            fp_diet_emissions = Fin 2, fp_country = ''UK'',
            fp_timestamp = ''2024-01-01 10:00:00''\<rparr>,
           \<lparr>fp_id = 2, fp_user_name = ''Bob'', fp_email = ''bob@example.org'',
            fp_weekly_total = Fin 3, fp_annual_total = Fin 156,
            fp_transport_emissions = Fin 1, fp_short_flights_emissions = Fin 0,
            fp_long_flights_emissions = Fin 0, fp_household_emissions = Fin 0,
            fp_diet_emissions = Fin 2, fp_country = ''UK'',
            fp_timestamp = ''2024-01-01 10:00:00''\<rparr>],
       reachable = True\<rparr>)"
  using delete_footprint_result [of "\<lparr>carbon_footprints = [\<lparr>fp_id = 1, fp_user_name = ''Ada'', fp_email = ''ada@example.org'',
            fp_weekly_total = Fin 3, fp_annual_total = Fin 156,
            fp_transport_emissions = Fin 1, fp_short_flights_emissions = Fin 0,
            fp_long_flights_emissions = Fin 0, fp_household_emissions = Fin 0,
            fp_diet_emissions = Fin 2, fp_country = ''UK'',
            fp_timestamp = ''2024-01-01 10:00:00''\<rparr>,
           \<lparr>fp_id = 2, fp_user_name = ''Bob'', fp_email = ''bob@example.org'',
            fp_weekly_total = Fin 3, fp_annual_total = Fin 156,
            fp_transport_emissions = Fin 1, fp_short_flights_emissions = Fin 0,
            fp_long_flights_emissions = Fin 0, fp_household_emissions = Fin 0,
            fp_diet_emissions = Fin 2, fp_country = ''UK'',
            fp_timestamp = ''2024-01-01 10:00:00''\<rparr>],
       reachable = True\<rparr>" 1]
    delete_footprint_result [of "\<lparr>carbon_footprints = [\<lparr>fp_id = 1, fp_user_name = ''Ada'', fp_email = ''ada@example.org'',
            fp_weekly_total = Fin 3, fp_annual_total = Fin 156,
            fp_transport_emissions = Fin 1, fp_short_flights_emissions = Fin 0,
            fp_long_flights_emissions = Fin 0, fp_household_emissions = Fin 0,
            fp_diet_emissions = Fin 2, fp_country = ''UK'',
            fp_timestamp = ''2024-01-01 10:00:00''\<rparr>,
           \<lparr>fp_id = 2, fp_user_name = ''Bob'', fp_email = ''bob@example.org'',
            fp_weekly_total = Fin 3, fp_annual_total = Fin 156,
            fp_transport_emissions = Fin 1, fp_short_flights_emissions = Fin 0,
            fp_long_flights_emissions = Fin 0, fp_household_emissions = Fin 0,
            fp_diet_emissions = Fin 2, fp_country = ''UK'',
            fp_timestamp = ''2024-01-01 10:00:00''\<rparr>],
       reachable = True\<rparr>" 7]
  by (simp add: prod_eq_iff)

text \<open>A failing database raises, and the rollback leaves the rows as they were.\<close>

lemma delete_footprint_unreachable:
  "\<not> reachable db \<Longrightarrow> delete_footprint i db = (Inl DatabaseError, db)"
  by (simp add: delete_footprint_def)

section \<open>Comparator\<close>

lemma world_average: "NATIONAL_AVERAGES ''World'' = Some 4800"
  by (simp add: NATIONAL_AVERAGES_def)

lemma national_average_range:
  "0 < (case NATIONAL_AVERAGES c of Some v \<Rightarrow> v | None \<Rightarrow> 4800)
   \<and> (case NATIONAL_AVERAGES c of Some v \<Rightarrow> v | None \<Rightarrow> 4800) < 2 ^ 53"
  by (simp add: NATIONAL_AVERAGES_def)

lemma fdiv_nonzero: "y \<noteq> 0 \<Longrightarrow> \<exists>q. fdiv a (Fin y) = Inr q"
  by (cases a) simp_all

lemma comparison_fields:
  fixes a :: pyfloat and c :: string
  defines "avg \<equiv> (case NATIONAL_AVERAGES c of Some v \<Rightarrow> v | None \<Rightarrow> 4800)"
  shows "\<exists>r q pre suf. get_footprint_comparison a c = Inr r
     \<and> country r = c \<and> national_avg r = avg
     \<and> fdiv a (Fin (of_int avg)) = Inr q
     \<and> percentage r = fmul q (Fin 100)
     \<and> status r = spec_band (percentage r)
     \<and> (status r, pre, suf) \<in> set message_templates
     \<and> message r = pre @ c @ suf"
proof -
  from national_average_range [of c] have rng: "0 < avg" "avg < 2 ^ 53"
    by (simp_all add: avg_def)
  then have conv: "float_of_int avg = Inr (Fin (of_int avg))"
    by (simp add: float_of_int_exact)
  from rng obtain q where q: "fdiv a (Fin (of_int avg)) = Inr q"
    using fdiv_nonzero [of "of_int avg" a] by auto
  have w: "getitem NATIONAL_AVERAGES ''World'' = Inr 4800"
    by (simp add: getitem_def world_average)
  show ?thesis
    unfolding get_footprint_comparison_def w bind_err_def
    using conv q
    by (simp add: avg_def [symmetric] Let_def spec_band_def message_templates_def)
qed


lemma spec_band_intervals:
  "(spec_band (Fin p) = ''high'') = (120 < p)
   \<and> (spec_band (Fin p) = ''above_avg'') = (100 < p \<and> p \<le> 120)
   \<and> (spec_band (Fin p) = ''average'') = (80 < p \<and> p \<le> 100)
   \<and> (spec_band (Fin p) = ''below_avg'') = (50 < p \<and> p \<le> 80)
   \<and> (spec_band (Fin p) = ''low'') = (p \<le> 50)"
  by (simp add: spec_band_def)

text \<open>
  Claim C1. For every annual footprint and every country, the comparator returns a
  result whose percentage is (annual footprint / national average) * 100 and whose
  band is assigned by strict comparisons from the top, first match winning: above 120
  "high", else above 100 "above_avg", else above 80 "average", else above 50
  "below_avg", else "low". A percentage of exactly 100 gives "average".
\<close>

theorem comparison_bands:
  "\<exists>r q. get_footprint_comparison a c = Inr r
     \<and> national_avg r = (case NATIONAL_AVERAGES c of Some v \<Rightarrow> v | None \<Rightarrow> 4800)
     \<and> fdiv a (Fin (of_int (national_avg r))) = Inr q
     \<and> percentage r = fmul q (Fin 100)
     \<and> status r = spec_band (percentage r)
     \<and> (percentage r = Fin 100 \<longrightarrow> status r = ''average'')
     \<and> (\<forall>p. percentage r = Fin p \<longrightarrow>
           (status r = ''high'') = (120 < p)
         \<and> (status r = ''above_avg'') = (100 < p \<and> p \<le> 120)
         \<and> (status r = ''average'') = (80 < p \<and> p \<le> 100)
         \<and> (status r = ''below_avg'') = (50 < p \<and> p \<le> 80)
         \<and> (status r = ''low'') = (p \<le> 50))"
proof -
  from comparison_fields [of a c] obtain r q where
    r: "get_footprint_comparison a c = Inr r"
       "national_avg r = (case NATIONAL_AVERAGES c of Some v \<Rightarrow> v | None \<Rightarrow> 4800)"
       "fdiv a (Fin (of_int (case NATIONAL_AVERAGES c of Some v \<Rightarrow> v | None \<Rightarrow> 4800))) = Inr q"
       "percentage r = fmul q (Fin 100)"
       "status r = spec_band (percentage r)"
    by blast
  have "status r = ''average''" if "percentage r = Fin 100"
    using that r(5) by (simp add: spec_band_def)
  moreover have "(status r = ''high'') = (120 < p)
         \<and> (status r = ''above_avg'') = (100 < p \<and> p \<le> 120)
         \<and> (status r = ''average'') = (80 < p \<and> p \<le> 100)
         \<and> (status r = ''below_avg'') = (50 < p \<and> p \<le> 80)
         \<and> (status r = ''low'') = (p \<le> 50)" if "percentage r = Fin p" for p
    using spec_band_intervals [of p] r(5) that by simp
  ultimately show ?thesis
    using r by (intro exI [of _ r] exI [of _ q]) simp
qed

theorem comparison_bands_witness:
  "\<exists>r. get_footprint_comparison (Fin 5200) ''UK'' = Inr r
     \<and> percentage r = Fin 100 \<and> status r = ''average''"
proof -
  from comparison_bands [of "Fin 5200" "''UK''"] obtain r q where
    r: "get_footprint_comparison (Fin 5200) ''UK'' = Inr r"
       "national_avg r = (case NATIONAL_AVERAGES ''UK'' of Some v \<Rightarrow> v | None \<Rightarrow> 4800)"
       "fdiv (Fin 5200) (Fin (of_int (national_avg r))) = Inr q"
       "percentage r = fmul q (Fin 100)"
       "percentage r = Fin 100 \<longrightarrow> status r = ''average''"
    by blast
  from r(2) have "national_avg r = 5200" by (simp add: NATIONAL_AVERAGES_def)
  with r(3) have "q = Fin 1" by (simp add: float_eval)
  with r(4) have "percentage r = Fin 100" by (simp add: float_eval)
  with r(1,5) show ?thesis by simp
qed

text \<open>
  The bands at 1, 1.21, 0.81, 0.51 and 0.49 times the national average of the UK, the
  annual total being the float product of the multiple and the average.
\<close>

lemma comparison_band_examples:
  "map (\<lambda>k. map_sum id status (get_footprint_comparison (fmul (rnd k) (Fin 5200)) ''UK''))
     [1, 121 / 100, 81 / 100, 51 / 100, 49 / 100]
   = [Inr ''average'', Inr ''high'', Inr ''average'', Inr ''below_avg'', Inr ''low'']"
proof -
  have v: "fmul (rnd 1) (Fin 5200) = Fin 5200" "fmul (rnd (121 / 100)) (Fin 5200) = Fin 6292"
    "fmul (rnd (81 / 100)) (Fin 5200) = Fin 4212" "fmul (rnd (51 / 100)) (Fin 5200) = Fin 2652"
    "fmul (rnd (49 / 100)) (Fin 5200) = Fin 2548"
    by (simp_all add: float_eval)
  have b: "spec_band (fmul (rnd (x / 5200)) (Fin 100)) = s
    \<Longrightarrow> map_sum id status (get_footprint_comparison (Fin x) ''UK'') = Inr s" for x s
    using comparison_fields [of "Fin x" "''UK''"]
    by (auto simp: NATIONAL_AVERAGES_def)
  have s: "spec_band (fmul (rnd (5200 / 5200)) (Fin 100)) = ''average''"
    "spec_band (fmul (rnd (6292 / 5200)) (Fin 100)) = ''high''"
    "spec_band (fmul (rnd (4212 / 5200)) (Fin 100)) = ''average''"
    "spec_band (fmul (rnd (2652 / 5200)) (Fin 100)) = ''below_avg''"
    "spec_band (fmul (rnd (2548 / 5200)) (Fin 100)) = ''low''"
    by (simp_all add: float_eval spec_band_def)
  show ?thesis
    unfolding list.map v by (simp only: s [THEN b])
qed

text \<open>
  Claim C10. For a country that is not in the table of national averages, the result
  still carries the caller's country string in its country field and in its message,
  while the national average and the percentage come from the "World" entry.
\<close>

theorem unknown_country_reported:
  assumes "NATIONAL_AVERAGES c = None"
  shows "\<exists>r q pre suf. get_footprint_comparison a c = Inr r
     \<and> country r = c
     \<and> NATIONAL_AVERAGES ''World'' = Some (national_avg r)
     \<and> fdiv a (Fin (of_int (national_avg r))) = Inr q
     \<and> percentage r = fmul q (Fin 100)
     \<and> (status r, pre, suf) \<in> set message_templates
     \<and> message r = pre @ c @ suf"
  using comparison_fields [of a c] assms world_average by fastforce

theorem unknown_country_reported_witness:
  "\<exists>r. get_footprint_comparison (Fin 2400) ''Atlantis'' = Inr r
     \<and> country r = ''Atlantis'' \<and> national_avg r = 4800 \<and> percentage r = Fin 50
     \<and> status r = ''low''
     \<and> message r =
         ''Your carbon footprint is significantly lower than the Atlantis average. Excellent!''"
proof -
  have n: "NATIONAL_AVERAGES ''Atlantis'' = None"
    by (simp add: NATIONAL_AVERAGES_def)
  from unknown_country_reported [OF n, of "Fin 2400"] obtain r q pre suf where
    r: "get_footprint_comparison (Fin 2400) ''Atlantis'' = Inr r"
       "country r = ''Atlantis''"
       "NATIONAL_AVERAGES ''World'' = Some (national_avg r)"
       "fdiv (Fin 2400) (Fin (of_int (national_avg r))) = Inr q"
       "percentage r = fmul q (Fin 100)"
       "(status r, pre, suf) \<in> set message_templates"
       "message r = pre @ ''Atlantis'' @ suf"
    by blast
  from r(3) have a: "national_avg r = 4800" by (simp add: world_average)
  with r(4) have "q = rnd (1 / 2)" by simp
  then have "q = Fin (1 / 2)" by (simp add: float_eval)
  with r(5) have p: "percentage r = Fin 50" by (simp add: float_eval)
  have g: "get_footprint_comparison (Fin 2400) ''Atlantis'' = Inr r'
             \<Longrightarrow> percentage r' = Fin 50 \<Longrightarrow> status r' = ''low'' \<and> message r' =
         ''Your carbon footprint is significantly lower than the Atlantis average. Excellent!''" for r'
    by (auto simp: get_footprint_comparison_def bind_err_def getitem_def Let_def
          NATIONAL_AVERAGES_def split: sum.splits)
  from g [OF r(1) p] r(1,2) a p show ?thesis by simp
qed



section \<open>Calculator\<close>

lemma factor_flight_short: "getitem EMISSION_FACTORS ''flight_short'' = Inr (rnd (24 / 100))"
  by (simp add: getitem_def EMISSION_FACTORS_def)

lemma factor_flight_long: "getitem EMISSION_FACTORS ''flight_long'' = Inr (rnd (18 / 100))"
  by (simp add: getitem_def EMISSION_FACTORS_def)

lemma factor_electricity: "getitem EMISSION_FACTORS ''electricity'' = Inr (rnd (233 / 1000))"
  by (simp add: getitem_def EMISSION_FACTORS_def)

lemma factor_natural_gas: "getitem EMISSION_FACTORS ''natural_gas'' = Inr (rnd (184 / 1000))"
  by (simp add: getitem_def EMISSION_FACTORS_def)

lemma flight_short_emissions_eq:
  "flight_short_emissions n =
     bind_err (float_of_int (n * 1000)) (\<lambda>a. fdiv (fmul a (rnd (24 / 100))) (Fin 52))"
  by (simp add: flight_short_emissions_def factor_flight_short bind_err_def
      short_flight_distance_def)

lemma flight_long_emissions_eq:
  "flight_long_emissions n =
     bind_err (float_of_int (n * 6000)) (\<lambda>a. fdiv (fmul a (rnd (18 / 100))) (Fin 52))"
  by (simp add: flight_long_emissions_def factor_flight_long bind_err_def
      long_flight_distance_def)

lemma fdiv_52: "\<exists>q. fdiv a (Fin 52) = Inr q"
  using fdiv_nonzero [of 52 a] by simp

lemma flight_short_returns:
  assumes "0 \<le> n" "n * 1000 < 2 ^ 53"
  shows "\<exists>s. flight_short_emissions n = Inr s
           \<and> fdiv (fmul (Fin (of_int n * 1000)) (rnd (24 / 100))) (Fin 52) = Inr s"
proof -
  from assms have "float_of_int (n * 1000) = Inr (Fin (of_int (n * 1000)))"
    by (intro float_of_int_exact) simp_all
  moreover obtain s where
    "fdiv (fmul (Fin (of_int n * 1000)) (rnd (24 / 100))) (Fin 52) = Inr s"
    using fdiv_52 by blast
  ultimately show ?thesis
    by (simp add: flight_short_emissions_eq bind_err_def)
qed

lemma flight_long_returns:
  assumes "0 \<le> n" "n * 6000 < 2 ^ 53"
  shows "\<exists>l. flight_long_emissions n = Inr l
           \<and> fdiv (fmul (Fin (of_int n * 6000)) (rnd (18 / 100))) (Fin 52) = Inr l"
proof -
  from assms have "float_of_int (n * 6000) = Inr (Fin (of_int (n * 6000)))"
    by (intro float_of_int_exact) simp_all
  moreover obtain l where
    "fdiv (fmul (Fin (of_int n * 6000)) (rnd (18 / 100))) (Fin 52) = Inr l"
    using fdiv_52 by blast
  ultimately show ?thesis
    by (simp add: flight_long_emissions_eq bind_err_def)
qed

lemma flight_short_52: "flight_short_emissions 52 = Inr (Fin 240)"
proof -
  have c: "float_of_int (52 * 1000) = Inr (Fin 52000)"
    using float_of_int_exact [of 52000] by simp
  have f: "rnd (24 / 100) = Fin (4323455642275676 / 18014398509481984)"
    by (simp add: float_eval)
  have m: "fmul (Fin 52000) (Fin (4323455642275676 / 18014398509481984)) = Fin 12480"
    by (simp add: float_eval)
  have d: "fdiv (Fin 12480) (Fin 52) = Inr (Fin 240)"
    by (simp add: float_eval)
  show ?thesis
    unfolding flight_short_emissions_eq c bind_err_def f by (simp only: sum.case m d)
qed

text \<open>
  Claim C5. For every annual flight count, the weekly flight emissions are
  (count * distance * factor) / 52, with the distance fixed at 1000 km for short-haul
  and 6000 km for long-haul flights; the computation returns for every count whose
  product with the distance is below \<open>2^53\<close>. For 52 short flights (factor 0.24) the weekly
  short-flight emissions are exactly 240.0.
\<close>

theorem flight_amortization:
  "flight_short_emissions n =
     bind_err (float_of_int (n * 1000)) (\<lambda>a. fdiv (fmul a (rnd (24 / 100))) (Fin 52))
   \<and> flight_long_emissions n =
     bind_err (float_of_int (n * 6000)) (\<lambda>a. fdiv (fmul a (rnd (18 / 100))) (Fin 52))
   \<and> (0 \<le> n \<and> n * 6000 < 2 ^ 53 \<longrightarrow>
        (\<exists>s l. flight_short_emissions n = Inr s
           \<and> fdiv (fmul (Fin (of_int n * 1000)) (rnd (24 / 100))) (Fin 52) = Inr s
           \<and> flight_long_emissions n = Inr l
           \<and> fdiv (fmul (Fin (of_int n * 6000)) (rnd (18 / 100))) (Fin 52) = Inr l))
   \<and> flight_short_emissions 52 = Inr (Fin 240)"
proof (intro conjI impI)
  assume "0 \<le> n \<and> n * 6000 < 2 ^ 53"
  then have n: "0 \<le> n" "n * 6000 < 2 ^ 53" "n * 1000 < 2 ^ 53" by auto
  from flight_short_returns [OF n(1,3)] flight_long_returns [OF n(1,2)]
  show "\<exists>s l. flight_short_emissions n = Inr s
           \<and> fdiv (fmul (Fin (of_int n * 1000)) (rnd (24 / 100))) (Fin 52) = Inr s
           \<and> flight_long_emissions n = Inr l
           \<and> fdiv (fmul (Fin (of_int n * 6000)) (rnd (18 / 100))) (Fin 52) = Inr l"
    by blast
qed (rule flight_short_emissions_eq flight_long_emissions_eq flight_short_52)+

theorem flight_amortization_witness:
  "flight_short_emissions 52 = Inr (Fin 240) \<and> flight_long_emissions 2 = Inr (rnd (540 / 13))"
proof -
  have h: "0 \<le> (2::int) \<and> (2::int) * 6000 < 2 ^ 53" by simp
  from flight_amortization [of 2] h obtain l where
    l: "flight_long_emissions 2 = Inr l"
       "fdiv (fmul (Fin (of_int 2 * 6000)) (rnd (18 / 100))) (Fin 52) = Inr l"
    by blast
  have "fdiv (fmul (Fin (of_int 2 * 6000)) (rnd (18 / 100))) (Fin 52) = Inr (rnd (540 / 13))"
    by (simp add: float_eval)
  with l have "flight_long_emissions 2 = Inr (rnd (540 / 13))" by simp
  moreover from flight_amortization [of 52] have "flight_short_emissions 52 = Inr (Fin 240)"
    by blast
  ultimately show ?thesis by simp
qed

subsection \<open>The submit handler\<close>

lemma household_returns:
  "calculate_household_emissions e g =
     Inr (fadd (fmul e (rnd (233 / 1000))) (fmul g (rnd (184 / 1000))))"
  by (simp add: calculate_household_emissions_def factor_electricity factor_natural_gas
      bind_err_def)

lemma food_emissions_returns:
  assumes "k \<in> set diet_options" "0 \<le> n" "n < 2 ^ 53"
  shows "\<exists>f. EMISSION_FACTORS k = Some f
           \<and> calculate_food_emissions k n = Inr (fmul (Fin (of_int n)) f)"
proof -
  from assms(1) obtain f where f: "EMISSION_FACTORS k = Some f"
    by (auto simp: diet_options_def EMISSION_FACTORS_def)
  with float_of_int_exact [OF assms(2,3)] show ?thesis
    by (simp add: calculate_food_emissions_def bind_err_def)
qed

lemma diet_emissions_returns:
  assumes "\<forall>(k, n) \<in> set xs. k \<in> set diet_options \<and> 0 \<le> n \<and> n < 2 ^ 53"
  shows "\<exists>de. diet_emissions xs = Inr de \<and> map fst de = map fst xs"
  using assms
proof (induction xs)
  case Nil
  then show ?case by simp
next
  case (Cons x xs)
  obtain k n where x: "x = (k, n)" by (cases x)
  with Cons.prems have "k \<in> set diet_options" "0 \<le> n" "n < 2 ^ 53" by auto
  from food_emissions_returns [OF this] obtain v where
    v: "calculate_food_emissions k n = Inr v" by blast
  from Cons obtain de where de: "diet_emissions xs = Inr de" "map fst de = map fst xs"
    by auto
  from v de x show ?case by (simp add: bind_err_def)
qed

lemma carbon_calculator_form_returns:
  assumes "0 \<le> short_flights inp" "short_flights inp * 1000 < 2 ^ 53"
    and "0 \<le> long_flights inp" "long_flights inp * 6000 < 2 ^ 53"
    and "\<forall>k \<in> set diet_options. 0 \<le> meals inp k \<and> meals inp k < 2 ^ 53"
  shows "\<exists>r t s l h de.
      carbon_calculator_form inp = Inr r
    \<and> weekly_breakdown r =
        [(''Transportation'', t), (''Short Flights'', s), (''Long Flights'', l),
         (''Household Energy'', h), (''Diet'', py_sum (map snd de))]
    \<and> t = calculate_transportation_emissions (transport_type inp) (weekly_distance inp)
    \<and> flight_short_emissions (short_flights inp) = Inr s
    \<and> flight_long_emissions (long_flights inp) = Inr l
    \<and> calculate_household_emissions (electricity_kwh inp) (gas_kwh inp) = Inr h
    \<and> diet_emissions (diet_inputs inp) = Inr de
    \<and> weekly_total r = fadd (fadd (fadd (fadd t s) l) h) (py_sum (map snd de))
    \<and> annual_total r = fmul (weekly_total r) (Fin 52)"
proof -
  from flight_short_returns [OF assms(1,2)] obtain s where
    s: "flight_short_emissions (short_flights inp) = Inr s" by blast
  from flight_long_returns [OF assms(3,4)] obtain l where
    l: "flight_long_emissions (long_flights inp) = Inr l" by blast
  obtain h where h: "calculate_household_emissions (electricity_kwh inp) (gas_kwh inp) = Inr h"
    by (simp add: household_returns)
  from assms(5) have "\<forall>(k, n) \<in> set (diet_inputs inp).
      k \<in> set diet_options \<and> 0 \<le> n \<and> n < 2 ^ 53"
    by (auto simp: diet_inputs_def)
  from diet_emissions_returns [OF this] obtain de where
    de: "diet_emissions (diet_inputs inp) = Inr de" by blast
  define t where
    "t = calculate_transportation_emissions (transport_type inp) (weekly_distance inp)"
  define w where "w = fadd (fadd (fadd (fadd t s) l) h) (py_sum (map snd de))"
  from comparison_fields [of "fmul w (Fin 52)" "selected_country inp"] obtain cmp where
    cmp: "get_footprint_comparison (fmul w (Fin 52)) (selected_country inp) = Inr cmp"
    by blast
  have "\<exists>recs. carbon_calculator_form inp =
      Inr \<lparr>weekly_total = w, annual_total = fmul w (Fin 52),
           weekly_breakdown =
             [(''Transportation'', t), (''Short Flights'', s), (''Long Flights'', l),
              (''Household Energy'', h), (''Diet'', py_sum (map snd de))],
           comparison = cmp, recommendations = recs\<rparr>"
    unfolding carbon_calculator_form_def t_def [symmetric] s l h de bind_err_def
      factor_electricity factor_natural_gas Let_def
    by (simp add: cmp [unfolded w_def] w_def)
  then obtain recs where "carbon_calculator_form inp =
      Inr \<lparr>weekly_total = w, annual_total = fmul w (Fin 52),
           weekly_breakdown =
             [(''Transportation'', t), (''Short Flights'', s), (''Long Flights'', l),
              (''Household Energy'', h), (''Diet'', py_sum (map snd de))],
           comparison = cmp, recommendations = recs\<rparr>" ..
  with s l h de show ?thesis
    by (simp add: t_def w_def)
qed


text \<open>When the handler returns.\<close>

lemma bind_err_Inr_iff:
  "(\<exists>y. bind_err r f = Inr y) \<longleftrightarrow> (\<exists>v. r = Inr v \<and> (\<exists>y. f v = Inr y))"
  by (cases r) (simp_all add: bind_err_def)

lemma flight_short_returns_iff:
  "(\<exists>s. flight_short_emissions n = Inr s) \<longleftrightarrow> \<bar>n * 1000\<bar> < 2 ^ 1024 - 2 ^ 970"
  unfolding flight_short_emissions_eq bind_err_Inr_iff
  using float_of_int_returns_iff [of "n * 1000"] fdiv_52 by auto

lemma flight_long_returns_iff:
  "(\<exists>l. flight_long_emissions n = Inr l) \<longleftrightarrow> \<bar>n * 6000\<bar> < 2 ^ 1024 - 2 ^ 970"
  unfolding flight_long_emissions_eq bind_err_Inr_iff
  using float_of_int_returns_iff [of "n * 6000"] fdiv_52 by auto

lemma food_emissions_returns_iff:
  assumes "k \<in> set diet_options"
  shows "(\<exists>v. calculate_food_emissions k n = Inr v) \<longleftrightarrow> \<bar>n\<bar> < 2 ^ 1024 - 2 ^ 970"
proof -
  from assms obtain f where f: "EMISSION_FACTORS k = Some f"
    by (auto simp: diet_options_def EMISSION_FACTORS_def)
  have "(\<exists>v. calculate_food_emissions k n = Inr v) \<longleftrightarrow> (\<exists>x. float_of_int n = Inr x)"
    by (simp add: calculate_food_emissions_def f bind_err_Inr_iff)
  then show ?thesis by (simp only: float_of_int_returns_iff)
qed

lemma diet_emissions_returns_iff:
  "(\<exists>de. diet_emissions xs = Inr de)
     \<longleftrightarrow> (\<forall>(k, n) \<in> set xs. \<exists>v. calculate_food_emissions k n = Inr v)"
proof (induction xs)
  case Nil
  then show ?case by simp
next
  case (Cons x xs)
  obtain k n where x: "x = (k, n)" by (cases x)
  have "(\<exists>de. diet_emissions (x # xs) = Inr de) \<longleftrightarrow>
      (\<exists>v. calculate_food_emissions k n = Inr v) \<and> (\<exists>de. diet_emissions xs = Inr de)"
    unfolding x diet_emissions.simps bind_err_Inr_iff by auto
  with Cons.IH x show ?case by simp
qed

lemma diet_inputs_return_iff:
  "(\<exists>de. diet_emissions (diet_inputs inp) = Inr de)
     \<longleftrightarrow> (\<forall>k \<in> set diet_options. \<bar>meals inp k\<bar> < 2 ^ 1024 - 2 ^ 970)"
proof -
  have "(\<forall>(k, n) \<in> set (diet_inputs inp). \<exists>v. calculate_food_emissions k n = Inr v)
      \<longleftrightarrow> (\<forall>k \<in> set diet_options. \<exists>v. calculate_food_emissions k (meals inp k) = Inr v)"
    by (auto simp: diet_inputs_def)
  also have "\<dots> \<longleftrightarrow> (\<forall>k \<in> set diet_options. \<bar>meals inp k\<bar> < 2 ^ 1024 - 2 ^ 970)"
    using food_emissions_returns_iff by blast
  finally show ?thesis by (simp only: diet_emissions_returns_iff)
qed

lemma carbon_calculator_form_returns_iff:
  "(\<exists>r. carbon_calculator_form inp = Inr r) \<longleftrightarrow>
     (\<exists>s. flight_short_emissions (short_flights inp) = Inr s)
   \<and> (\<exists>l. flight_long_emissions (long_flights inp) = Inr l)
   \<and> (\<exists>de. diet_emissions (diet_inputs inp) = Inr de)"
proof -
  have cmp: "\<exists>y. get_footprint_comparison a c = Inr y" for a c
    using comparison_fields [of a c] by blast
  show ?thesis
    unfolding carbon_calculator_form_def Let_def bind_err_Inr_iff household_returns
      factor_electricity factor_natural_gas
    using cmp by auto
qed

lemma carbon_calculator_form_relation:
  assumes "carbon_calculator_form inp = Inr r"
  shows "\<exists>t s l h d.
      weekly_breakdown r =
        [(''Transportation'', t), (''Short Flights'', s), (''Long Flights'', l),
         (''Household Energy'', h), (''Diet'', d)]
    \<and> weekly_total r = fadd (fadd (fadd (fadd t s) l) h) d
    \<and> annual_total r = fmul (weekly_total r) (Fin 52)"
  using assms
  by (auto simp: carbon_calculator_form_def bind_err_def Let_def split: sum.splits)

text \<open>
  Claim C2. Whatever the input, the weekly total of a result of the handler is the
  sum, from the left, of its five breakdown categories Transportation, Short Flights,
  Long Flights, Household Energy and Diet, and its annual total is the weekly total
  times 52; no other rounding than that of the float operations themselves is applied.
  The handler returns a result exactly when the int operands it converts to float
  (flight count times distance, meal counts) are in the range of the floats, below
  \<open>2^1024 - 2^970\<close> in absolute value; beyond, the conversion raises \<^verbatim>\<open>OverflowError\<close>.
\<close>

theorem totals_are_sums:
  "(\<forall>r. carbon_calculator_form inp = Inr r \<longrightarrow>
      (\<exists>t s l h d.
          weekly_breakdown r =
            [(''Transportation'', t), (''Short Flights'', s), (''Long Flights'', l),
             (''Household Energy'', h), (''Diet'', d)]
        \<and> weekly_total r = fadd (fadd (fadd (fadd t s) l) h) d
        \<and> weekly_total r = foldl fadd t [s, l, h, d]
        \<and> annual_total r = fmul (weekly_total r) (Fin 52)))
   \<and> ((\<exists>r. carbon_calculator_form inp = Inr r) \<longleftrightarrow>
          \<bar>short_flights inp * 1000\<bar> < 2 ^ 1024 - 2 ^ 970
        \<and> \<bar>long_flights inp * 6000\<bar> < 2 ^ 1024 - 2 ^ 970
        \<and> (\<forall>k \<in> set diet_options. \<bar>meals inp k\<bar> < 2 ^ 1024 - 2 ^ 970))"
proof (intro conjI allI impI)
  fix r assume "carbon_calculator_form inp = Inr r"
  from carbon_calculator_form_relation [OF this]
  show "\<exists>t s l h d.
          weekly_breakdown r =
            [(''Transportation'', t), (''Short Flights'', s), (''Long Flights'', l),
             (''Household Energy'', h), (''Diet'', d)]
        \<and> weekly_total r = fadd (fadd (fadd (fadd t s) l) h) d
        \<and> weekly_total r = foldl fadd t [s, l, h, d]
        \<and> annual_total r = fmul (weekly_total r) (Fin 52)"
    by fastforce
next
  show "(\<exists>r. carbon_calculator_form inp = Inr r) \<longleftrightarrow>
          \<bar>short_flights inp * 1000\<bar> < 2 ^ 1024 - 2 ^ 970
        \<and> \<bar>long_flights inp * 6000\<bar> < 2 ^ 1024 - 2 ^ 970
        \<and> (\<forall>k \<in> set diet_options. \<bar>meals inp k\<bar> < 2 ^ 1024 - 2 ^ 970)"
    by (simp only: carbon_calculator_form_returns_iff flight_short_returns_iff
        flight_long_returns_iff diet_inputs_return_iff)
qed

theorem totals_are_sums_witness:
  "\<exists>r. carbon_calculator_form
       \<lparr>transport_type = ''car_diesel'', weekly_distance = Fin 50,
        short_flights = 10000000000000, long_flights = 9007199254740991,
        electricity_kwh = Fin 40, gas_kwh = Fin 10,
        meals = (\<lambda>k. 3), selected_country = ''EU''\<rparr> = Inr r
    \<and> map fst (weekly_breakdown r) =
        [''Transportation'', ''Short Flights'', ''Long Flights'', ''Household Energy'', ''Diet'']
    \<and> weekly_total r =
        foldl fadd (snd (hd (weekly_breakdown r))) (map snd (tl (weekly_breakdown r)))
    \<and> annual_total r = fmul (weekly_total r) (Fin 52)"
proof -
  let ?inp = "\<lparr>transport_type = ''car_diesel'', weekly_distance = Fin 50,
        short_flights = 10000000000000, long_flights = 9007199254740991,
        electricity_kwh = Fin 40, gas_kwh = Fin 10,
        meals = (\<lambda>k. 3), selected_country = ''EU''\<rparr>"
  have h: "\<bar>short_flights ?inp * 1000\<bar> < 2 ^ 1024 - 2 ^ 970
        \<and> \<bar>long_flights ?inp * 6000\<bar> < 2 ^ 1024 - 2 ^ 970
        \<and> (\<forall>k \<in> set diet_options. \<bar>meals ?inp k\<bar> < 2 ^ 1024 - 2 ^ 970)"
    by simp
  note t = totals_are_sums [of ?inp]
  from t h obtain r where r: "carbon_calculator_form ?inp = Inr r" by blast
  with t obtain t s l h d where
    "weekly_breakdown r =
        [(''Transportation'', t), (''Short Flights'', s), (''Long Flights'', l),
         (''Household Energy'', h), (''Diet'', d)]"
    "weekly_total r = foldl fadd t [s, l, h, d]"
    "annual_total r = fmul (weekly_total r) (Fin 52)"
    by blast
  with r show ?thesis by (intro exI [of _ r]) simp
qed

subsection \<open>The end-to-end scenario\<close>

lemma flight_emissions_0:
  "flight_short_emissions 0 = Inr (Fin 0)" "flight_long_emissions 0 = Inr (Fin 0)"
  using float_of_int_exact [of 0]
  by (simp_all add: flight_short_emissions_eq flight_long_emissions_eq bind_err_def float_eval)

lemma scenario_transport: "calculate_transportation_emissions ''car_petrol'' (Fin 100) = Fin 21"
  by (simp add: calculate_transportation_emissions_def EMISSION_FACTORS_def float_eval)

lemma scenario_household:
  "calculate_household_emissions (Fin 100) (Fin 0) = Inr (rnd (233 / 10))"
  by (simp add: household_returns float_eval)

lemma scenario_food:
  "calculate_food_emissions ''meat_beef'' 2 = Inr (Fin 12)"
  "calculate_food_emissions ''meat_pork'' 0 = Inr (Fin 0)"
  "calculate_food_emissions ''meat_chicken'' 0 = Inr (Fin 0)"
  "calculate_food_emissions ''vegetarian'' 0 = Inr (Fin 0)"
  "calculate_food_emissions ''vegan'' 0 = Inr (Fin 0)"
  using float_of_int_exact [of 0] float_of_int_exact [of 2]
  by (simp_all add: calculate_food_emissions_def EMISSION_FACTORS_def bind_err_def float_eval)

lemma scenario_diet:
  "diet_emissions [(''meat_beef'', 2), (''meat_pork'', 0), (''meat_chicken'', 0),
       (''vegetarian'', 0), (''vegan'', 0)]
   = Inr [(''meat_beef'', Fin 12), (''meat_pork'', Fin 0), (''meat_chicken'', Fin 0),
       (''vegetarian'', Fin 0), (''vegan'', Fin 0)]"
  by (simp add: scenario_food bind_err_def)

lemma scenario_sum: "py_sum [Fin 12, Fin 0, Fin 0, Fin 0, Fin 0] = Fin 12"
  by (simp add: py_sum_def float_eval)

lemma scenario_weekly:
  "fadd (fadd (fadd (fadd (Fin 21) (Fin 0)) (Fin 0)) (rnd (233 / 10))) (Fin 12) = rnd (563 / 10)"
  by (simp add: float_eval)

lemma scenario_annual: "fmul (rnd (563 / 10)) (Fin 52) = rnd (29276 / 10)"
  by (simp add: float_eval)

text \<open>
  Claim C8. For a petrol car driven 100 km a week, 100 kWh of electricity, no gas, two
  beef meals a week and no other meals, and no flights, the handler computes the floats
  21.0 for transport, 0 for both flight categories, 23.3 for the household, 12.0 for
  the diet, 56.3 for the weekly total and 2927.6 for the annual total, whatever the
  country selected. (\<open>rnd q\<close> is the float that the decimal literal for \<open>q\<close> denotes.)
\<close>

theorem end_to_end_scenario:
  "\<exists>r. carbon_calculator_form
       \<lparr>transport_type = ''car_petrol'', weekly_distance = Fin 100,
        short_flights = 0, long_flights = 0, electricity_kwh = Fin 100, gas_kwh = Fin 0,
        meals = (\<lambda>k. if k = ''meat_beef'' then 2 else 0), selected_country = c\<rparr> = Inr r
    \<and> weekly_breakdown r =
        [(''Transportation'', Fin 21), (''Short Flights'', Fin 0), (''Long Flights'', Fin 0),
         (''Household Energy'', rnd (233 / 10)), (''Diet'', Fin 12)]
    \<and> weekly_total r = rnd (563 / 10)
    \<and> annual_total r = rnd (29276 / 10)"
proof -
  let ?inp = "\<lparr>transport_type = ''car_petrol'', weekly_distance = Fin 100,
        short_flights = 0, long_flights = 0, electricity_kwh = Fin 100, gas_kwh = Fin 0,
        meals = (\<lambda>k. if k = ''meat_beef'' then 2 else 0), selected_country = c\<rparr>"
  have h: "0 \<le> short_flights ?inp" "short_flights ?inp * 1000 < 2 ^ 53"
    "0 \<le> long_flights ?inp" "long_flights ?inp * 6000 < 2 ^ 53"
    "\<forall>k \<in> set diet_options. 0 \<le> meals ?inp k \<and> meals ?inp k < 2 ^ 53"
    by simp_all
  have di: "diet_inputs ?inp = [(''meat_beef'', 2), (''meat_pork'', 0), (''meat_chicken'', 0),
       (''vegetarian'', 0), (''vegan'', 0)]"
    by (simp add: diet_inputs_def diet_options_def)
  from carbon_calculator_form_returns [OF h] obtain r t s l h de where
    r: "carbon_calculator_form ?inp = Inr r"
       "weekly_breakdown r =
        [(''Transportation'', t), (''Short Flights'', s), (''Long Flights'', l),
         (''Household Energy'', h), (''Diet'', py_sum (map snd de))]"
       "t = calculate_transportation_emissions (transport_type ?inp) (weekly_distance ?inp)"
       "flight_short_emissions (short_flights ?inp) = Inr s"
       "flight_long_emissions (long_flights ?inp) = Inr l"
       "calculate_household_emissions (electricity_kwh ?inp) (gas_kwh ?inp) = Inr h"
       "diet_emissions (diet_inputs ?inp) = Inr de"
       "weekly_total r = fadd (fadd (fadd (fadd t s) l) h) (py_sum (map snd de))"
       "annual_total r = fmul (weekly_total r) (Fin 52)"
    by blast
  from r(3) have t: "t = Fin 21" by (simp add: scenario_transport)
  from r(4) have s: "s = Fin 0" by (simp add: flight_emissions_0)
  from r(5) have l: "l = Fin 0" by (simp add: flight_emissions_0)
  from r(6) have h: "h = rnd (233 / 10)" by (simp add: scenario_household)
  from r(7) have d: "py_sum (map snd de) = Fin 12"
    unfolding di scenario_diet by (auto simp: scenario_sum)
  from r(2) t s l h d have wb: "weekly_breakdown r =
        [(''Transportation'', Fin 21), (''Short Flights'', Fin 0), (''Long Flights'', Fin 0),
         (''Household Energy'', rnd (233 / 10)), (''Diet'', Fin 12)]"
    by (simp only:)
  from r(8) t s l h d have wt: "weekly_total r = rnd (563 / 10)"
    by (simp only: scenario_weekly)
  from r(9) wt have a: "annual_total r = rnd (29276 / 10)"
    by (simp only: scenario_annual)
  from r(1) wb wt a show ?thesis
    by (intro exI [of _ r] conjI)
qed

end
